theory Spec2Isabelle
  imports Main "HOL-Library.AList" "HOL-Library.Char_ord" "HOL-Library.List_Lexorder"
begin

section \<open>Text helpers\<close>

text \<open>
  Python strings are modelled as \<^typ>\<open>string\<close>; the development covers ASCII text, where one
  \<^typ>\<open>char\<close> is one code point. \<open>str.lower()\<close> maps \<open>A..Z\<close> to \<open>a..z\<close> and leaves every
  other ASCII character alone.
\<close>

definition is_upper :: "char \<Rightarrow> bool" where
  "is_upper c \<longleftrightarrow> CHR ''A'' \<le> c \<and> c \<le> CHR ''Z''"

text \<open>An upper-case letter and its lower-case form differ in bit 5 (the code grows by 32).\<close>

fun lower_char :: "char \<Rightarrow> char" where
  "lower_char (Char b0 b1 b2 b3 b4 b5 b6 b7) =
     (if is_upper (Char b0 b1 b2 b3 b4 b5 b6 b7) then Char b0 b1 b2 b3 b4 True b6 b7
      else Char b0 b1 b2 b3 b4 b5 b6 b7)"

definition lower :: "string \<Rightarrow> string" where
  "lower s = map lower_char s"

section \<open>The syntax tree handed over by the parser\<close>

text \<open>
  The parser (sqlglot) is an external library. Its tree is taken as given: every node has a
  class, the attributes the resolver reads (\<open>name\<close>, \<open>alias\<close>, \<open>table\<close>), the key under which
  it hangs in its parent (\<open>arg_key\<close>) and its children in iteration order.
  \<^item> \<open>exp_Table name alias\<close>: \<open>t.name\<close> and the alias identifier's name, if there is one;
  \<^item> \<open>exp_CTE alias\<close>: \<open>cte.alias\<close> (the empty string when absent);
  \<^item> \<open>exp_Subquery alias\<close>;
  \<^item> \<open>exp_Column name table\<close>: \<open>col.name\<close> and \<open>col.table\<close> (the empty string when the
    reference has no prefix).
\<close>

datatype kind =
    exp_Table string "string option"
  | exp_CTE string
  | exp_Subquery "string option"
  | exp_Column string string
  | exp_Select
  | exp_Where
  | exp_Group
  | exp_Having
  | exp_Order
  | exp_Join
  | exp_With
  | exp_Union
  | exp_Other

datatype expr = Expr kind string "expr list"

fun kind_of :: "expr \<Rightarrow> kind" where
  "kind_of (Expr k a cs) = k"

fun arg_key :: "expr \<Rightarrow> string" where
  "arg_key (Expr k a cs) = a"

fun children :: "expr \<Rightarrow> expr list" where
  "children (Expr k a cs) = cs"

text \<open>
  \<open>root.find_all(T)\<close> walks the tree breadth first (a queue, children appended at the back)
  and yields the nodes of class \<open>T\<close>. Each queue entry carries the classes of the node's
  ancestors, nearest first: that is the \<open>parent\<close> chain \<open>clause_of\<close> follows.
\<close>

function bfs :: "(kind list \<times> expr) list \<Rightarrow> (kind list \<times> expr) list" where
  "bfs [] = []"
| "bfs ((anc, Expr k a cs) # queue) =
     (anc, Expr k a cs) # bfs (queue @ map (\<lambda>c. (k # anc, c)) cs)"
  by pat_completeness auto
termination
  by (relation "measure (size_list (\<lambda>p. size (snd p)))")
     (auto simp: comp_def)

definition walk :: "expr \<Rightarrow> (kind list \<times> expr) list" where
  "walk root = bfs [([], root)]"

fun is_Table :: "kind \<Rightarrow> bool" where
  "is_Table (exp_Table n a) = True"
| "is_Table _ = False"

fun is_CTE :: "kind \<Rightarrow> bool" where
  "is_CTE (exp_CTE a) = True"
| "is_CTE _ = False"

fun is_Subquery :: "kind \<Rightarrow> bool" where
  "is_Subquery (exp_Subquery a) = True"
| "is_Subquery _ = False"

fun is_Column :: "kind \<Rightarrow> bool" where
  "is_Column (exp_Column n t) = True"
| "is_Column _ = False"

definition find_all :: "(kind \<Rightarrow> bool) \<Rightarrow> expr \<Rightarrow> (kind list \<times> expr) list" where
  "find_all T root = filter (\<lambda>p. T (kind_of (snd p))) (walk root)"

section \<open>Name resolver\<close>

text \<open>
  \<open>_is_select_like\<close>: a \<open>Select\<close>, a \<open>With\<close> whose \<open>this\<close> is a \<open>Select\<close> or a \<open>Union\<close>, or a
  \<open>Union\<close>.
\<close>

definition this :: "expr \<Rightarrow> expr option" where
  "this e = find (\<lambda>c. arg_key c = ''this'') (children e)"

definition is_select_like :: "expr \<Rightarrow> bool" where
  "is_select_like e =
     (if kind_of e = exp_Select then True
      else if kind_of e = exp_With then
        (case this e of
           None \<Rightarrow> False
         | Some t \<Rightarrow> kind_of t = exp_Select \<or> kind_of t = exp_Union)
      else if kind_of e = exp_Union then True
      else False)"

text \<open>
  \<open>_collect_real_table_aliases\<close>: a Python dict keeps insertion order and overwrites in
  place, which is \<^const>\<open>AList.update\<close> on an association list.
\<close>

fun table_step :: "(string \<times> string) list \<Rightarrow> kind \<Rightarrow> (string \<times> string) list" where
  "table_step mapping (exp_Table name alias) =
     (let real_name = lower name in
      if real_name = [] then mapping
      else
        let mapping1 =
          (case alias of
             None \<Rightarrow> mapping
           | Some alias_str \<Rightarrow>
               if alias_str \<noteq> [] then AList.update (lower alias_str) real_name mapping
               else mapping)
        in AList.update real_name real_name mapping1)"
| "table_step mapping _ = mapping"

definition collect_real_table_aliases :: "expr \<Rightarrow> (string \<times> string) list" where
  "collect_real_table_aliases root =
     foldl table_step [] (map (\<lambda>p. kind_of (snd p)) (find_all is_Table root))"

text \<open>\<open>_collect_derived_aliases\<close>: the CTE names, then the subquery aliases, lower-cased.\<close>

fun cte_alias :: "kind \<Rightarrow> string list" where
  "cte_alias (exp_CTE a) = (if a \<noteq> [] then [lower a] else [])"
| "cte_alias _ = []"

fun subquery_alias :: "kind \<Rightarrow> string list" where
  "subquery_alias (exp_Subquery (Some a)) = (if a \<noteq> [] then [lower a] else [])"
| "subquery_alias _ = []"

definition collect_derived_aliases :: "expr \<Rightarrow> string set" where
  "collect_derived_aliases root =
     set (concat (map (\<lambda>p. cte_alias (kind_of (snd p))) (find_all is_CTE root)) @
          concat (map (\<lambda>p. subquery_alias (kind_of (snd p))) (find_all is_Subquery root)))"

text \<open>The schema snapshot is a dict from table name to the set of its column names.\<close>

type_synonym schema = "string \<rightharpoonup> string set"

record missing_table =
  mt_table :: string

record missing_column =
  mc_table :: string
  mc_column :: string
  mc_context :: string

record ambiguous_column =
  ac_column :: string
  ac_candidates :: "string list"
  ac_context :: string

text \<open>
  \<open>clause_of\<close> climbs the parent chain and answers at the first ancestor that is a clause.
\<close>

fun clause_of :: "kind list \<Rightarrow> string" where
  "clause_of [] = ''unknown''"
| "clause_of (p # ps) =
     (if p = exp_Select then ''select''
      else if p = exp_Where then ''where''
      else if p = exp_Group then ''group_by''
      else if p = exp_Having then ''having''
      else if p = exp_Order then ''order_by''
      else if p = exp_Join then ''join_on''
      else clause_of ps)"

definition lowered_keys :: "schema \<Rightarrow> string set" where
  "lowered_keys schema_tables = lower ` dom schema_tables"

definition lowered_columns :: "schema \<Rightarrow> string \<Rightarrow> string set" where
  "lowered_columns schema_tables real =
     lower ` (case schema_tables real of None \<Rightarrow> {} | Some cols \<Rightarrow> cols)"

definition candidates_of :: "(string \<times> string) list \<Rightarrow> schema \<Rightarrow> string \<Rightarrow> string list" where
  "candidates_of real_aliases schema_tables col_name =
     map (\<lambda>(alias, real). real @ ''.'' @ col_name)
       (filter (\<lambda>(alias, real). real \<in> lowered_keys schema_tables \<and>
                                  col_name \<in> lowered_columns schema_tables real)
          real_aliases)"

text \<open>
  One round of the loop over the column references: the two lists of findings before the
  reference, and after it.
\<close>

fun check_column ::
  "(string \<times> string) list \<Rightarrow> string set \<Rightarrow> schema \<Rightarrow>
   missing_column list \<times> ambiguous_column list \<Rightarrow> kind list \<times> expr \<Rightarrow>
   missing_column list \<times> ambiguous_column list" where
  "check_column real_aliases derived_aliases schema_tables (missing_columns, ambiguous_columns)
     (anc, Expr (exp_Column name tbl) a cs) =
     (let col_name = lower name; tbl_prefix = tbl; ctx = clause_of anc in
      if col_name = [] then (missing_columns, ambiguous_columns)
      else if tbl_prefix \<noteq> [] then
        (let alias_lower = lower tbl_prefix in
         if alias_lower \<in> derived_aliases then (missing_columns, ambiguous_columns)
         else
           (case map_of real_aliases alias_lower of
              None \<Rightarrow> (missing_columns, ambiguous_columns)
            | Some real \<Rightarrow>
                if real = [] then (missing_columns, ambiguous_columns)
                else if real \<notin> lowered_keys schema_tables then
                  (missing_columns, ambiguous_columns)
                else if col_name \<notin> lowered_columns schema_tables real then
                  (missing_columns @
                     [\<lparr>mc_table = real, mc_column = col_name, mc_context = ctx\<rparr>],
                   ambiguous_columns)
                else (missing_columns, ambiguous_columns)))
      else
        (let candidates = candidates_of real_aliases schema_tables col_name in
         if length candidates = 0 then
           (missing_columns @
              [\<lparr>mc_table = ''*'', mc_column = col_name, mc_context = ctx\<rparr>],
            ambiguous_columns)
         else if length candidates > 1 then
           (missing_columns,
            ambiguous_columns @
              [\<lparr>ac_column = col_name, ac_candidates = candidates, ac_context = ctx\<rparr>])
         else (missing_columns, ambiguous_columns)))"
| "check_column real_aliases derived_aliases schema_tables acc (anc, Expr k a cs) = acc"

definition check_schema_columns ::
  "expr \<Rightarrow> schema \<Rightarrow> missing_table list \<times> missing_column list \<times> ambiguous_column list" where
  "check_schema_columns root schema_tables =
     (let real_aliases = collect_real_table_aliases root;
          derived_aliases = collect_derived_aliases root;
          missing_tables =
            map (\<lambda>t. \<lparr>mt_table = t\<rparr>)
              (filter (\<lambda>t. t \<notin> lowered_keys schema_tables)
                 (sort (remdups (map snd real_aliases))));
          (missing_columns, ambiguous_columns) =
            foldl (check_column real_aliases derived_aliases schema_tables) ([], [])
              (find_all is_Column root)
      in (missing_tables, missing_columns, ambiguous_columns))"

section \<open>Lexical safety scanner\<close>

definition newline :: char where "newline = CHR 0x0A"
definition squote :: char where "squote = CHR 0x27"
definition dquote :: char where "dquote = CHR 0x22"
definition backslash :: char where "backslash = CHR 0x5C"

text \<open>
  The character classes of the regular expressions on ASCII text: \<open>\s\<close> (which is also what
  \<open>str.strip()\<close> removes) holds the codes 9 to 13, 28 to 32; \<open>\w\<close> holds letters, digits and
  the underscore.
\<close>

definition is_space :: "char \<Rightarrow> bool" where
  "is_space c \<longleftrightarrow> (let n = (of_char c :: nat) in (9 \<le> n \<and> n \<le> 13) \<or> (28 \<le> n \<and> n \<le> 32))"

definition is_word :: "char \<Rightarrow> bool" where
  "is_word c \<longleftrightarrow>
     (CHR ''a'' \<le> c \<and> c \<le> CHR ''z'') \<or> (CHR ''A'' \<le> c \<and> c \<le> CHR ''Z'') \<or>
     (CHR ''0'' \<le> c \<and> c \<le> CHR ''9'') \<or> c = CHR ''_''"

subsection \<open>\<open>re.sub\<close> with the five scrubbing patterns\<close>

text \<open>
  \<open>re.sub(pattern, repl, s)\<close> scans \<open>s\<close> from the left. A matcher \<open>m\<close> says, for the
  character \<open>c\<close> at the current position and the text \<open>cs\<close> after it, whether the pattern
  matches there: \<open>Some k\<close> when the match is \<open>c\<close> and the next \<open>k\<close> characters. A match is
  replaced by \<open>repl\<close> and the scan goes on behind it; otherwise \<open>c\<close> is kept. None of the
  five patterns matches the empty string.
\<close>

function re_sub :: "(char \<Rightarrow> string \<Rightarrow> nat option) \<Rightarrow> string \<Rightarrow> string \<Rightarrow> string" where
  "re_sub m repl [] = []"
| "re_sub m repl (c # cs) =
     (case m c cs of
        None \<Rightarrow> c # re_sub m repl cs
      | Some k \<Rightarrow> repl @ re_sub m repl (drop k cs))"
  by pat_completeness auto
termination
  by (relation "measure (\<lambda>(m, repl, s). length s)") auto

text \<open>\<open>--[^\n]*\<close>: two dashes and everything up to the end of the line.\<close>

fun line_comment_dash :: "char \<Rightarrow> string \<Rightarrow> nat option" where
  "line_comment_dash c [] = None"
| "line_comment_dash c (d # rest) =
     (if c = CHR ''-'' \<and> d = CHR ''-'' then
        Some (Suc (length (takeWhile (\<lambda>x. x \<noteq> newline) rest)))
      else None)"

text \<open>\<open>#[^\n]*\<close>.\<close>

definition line_comment_hash :: "char \<Rightarrow> string \<Rightarrow> nat option" where
  "line_comment_hash c cs =
     (if c = CHR ''#'' then Some (length (takeWhile (\<lambda>x. x \<noteq> newline) cs)) else None)"

text \<open>
  \<open>/\*.*?\*/\<close> with \<open>re.S\<close>: the opener and the shortest text up to a closer. \<open>find_close\<close>
  is the number of characters in front of the first \<open>*/\<close>.
\<close>

fun find_close :: "string \<Rightarrow> nat option" where
  "find_close [] = None"
| "find_close [x] = None"
| "find_close (x # y # r) =
     (if x = CHR ''*'' \<and> y = CHR ''/'' then Some 0
      else map_option Suc (find_close (y # r)))"

fun block_comment :: "char \<Rightarrow> string \<Rightarrow> nat option" where
  "block_comment c [] = None"
| "block_comment c (d # rest) =
     (if c = CHR ''/'' \<and> d = CHR ''*'' then map_option (\<lambda>i. i + 3) (find_close rest)
      else None)"

text \<open>
  \<open>q([^q\\]|\\.)*q\<close> for a quote character \<open>q\<close>. After the opening quote every step is
  forced: the closing quote ends the match, a backslash takes the next character with it
  (\<open>.\<close> does not match a newline), any other character is taken alone. So backtracking
  finds nothing the forward scan misses. \<open>literal_body\<close> counts the characters up to and
  with the closing quote.
\<close>

fun literal_body :: "char \<Rightarrow> string \<Rightarrow> nat option" where
  "literal_body q [] = None"
| "literal_body q [x] = (if x = q then Some 1 else None)"
| "literal_body q (x # y # r) =
     (if x = q then Some 1
      else if x = backslash then
        (if y = newline then None else map_option (\<lambda>n. n + 2) (literal_body q r))
      else map_option Suc (literal_body q (y # r)))"

definition quoted :: "char \<Rightarrow> char \<Rightarrow> string \<Rightarrow> nat option" where
  "quoted q c cs = (if c = q then literal_body q cs else None)"

definition remove_comments_and_strings :: "string \<Rightarrow> string" where
  "remove_comments_and_strings sql =
     (let s = re_sub line_comment_dash '' '' sql;
          s = re_sub line_comment_hash '' '' s;
          s = re_sub block_comment '' '' s;
          s = re_sub (quoted squote) [squote, squote] s;
          s = re_sub (quoted dquote) [dquote, dquote] s
      in s)"

subsection \<open>\<open>re.search\<close> with the denylist\<close>

text \<open>
  The denylist patterns are sequences of four kinds of atoms: a literal (compared without
  regard to case, \<open>re.I\<close>), \<open>\s*\<close> or \<open>[\(]*\<close>, \<open>\s+\<close>, and \<open>\b\<close>.
\<close>

datatype cls = Space | LParen

fun in_cls :: "cls \<Rightarrow> char \<Rightarrow> bool" where
  "in_cls Space c = is_space c"
| "in_cls LParen c = (c = CHR ''('')"

datatype atom = Lit string | Star cls | Plus cls | WordBoundary

type_synonym pattern = "atom list"

text \<open>\<open>\b\<close>: exactly one of the two neighbours is a word character.\<close>

definition at_boundary :: "char option \<Rightarrow> string \<Rightarrow> bool" where
  "at_boundary prev s \<longleftrightarrow>
     (case prev of None \<Rightarrow> False | Some p \<Rightarrow> is_word p) \<noteq>
     (case s of [] \<Rightarrow> False | c # cs \<Rightarrow> is_word c)"

text \<open>
  \<open>match_here p prev s\<close>: the pattern matches at the position in front of \<open>s\<close>, where
  \<open>prev\<close> is the character just before it.
\<close>

function match_here :: "pattern \<Rightarrow> char option \<Rightarrow> string \<Rightarrow> bool" where
  "match_here [] prev s = True"
| "match_here (WordBoundary # p) prev s = (at_boundary prev s \<and> match_here p prev s)"
| "match_here (Lit [] # p) prev s = match_here p prev s"
| "match_here (Lit (l # ls) # p) prev [] = False"
| "match_here (Lit (l # ls) # p) prev (c # cs) =
     (lower_char c = lower_char l \<and> match_here (Lit ls # p) (Some c) cs)"
| "match_here (Plus k # p) prev [] = False"
| "match_here (Plus k # p) prev (c # cs) = (in_cls k c \<and> match_here (Star k # p) (Some c) cs)"
| "match_here (Star k # p) prev [] = match_here p prev []"
| "match_here (Star k # p) prev (c # cs) =
     ((in_cls k c \<and> match_here (Star k # p) (Some c) cs) \<or> match_here p prev (c # cs))"
  by pat_completeness auto
termination
  by (relation "measures [\<lambda>(p, prev, s). length s, \<lambda>(p, prev, s). size_list size p]") auto

fun search_from :: "pattern \<Rightarrow> char option \<Rightarrow> string \<Rightarrow> bool" where
  "search_from p prev [] = match_here p prev []"
| "search_from p prev (c # cs) = (match_here p prev (c # cs) \<or> search_from p (Some c) cs)"

definition re_search :: "pattern \<Rightarrow> string \<Rightarrow> bool" where
  "re_search p s = search_from p None s"

definition keyword :: "string \<Rightarrow> pattern" where
  "keyword w = [WordBoundary, Lit w, WordBoundary]"

definition FORBIDDEN_TOKENS :: "pattern list" where
  "FORBIDDEN_TOKENS =
     [keyword ''INSERT'', keyword ''UPDATE'', keyword ''DELETE'', keyword ''REPLACE'',
      keyword ''MERGE'', keyword ''ALTER'', keyword ''DROP'', keyword ''TRUNCATE'',
      keyword ''CREATE'', keyword ''GRANT'', keyword ''REVOKE'', keyword ''SET'',
      keyword ''CALL'', keyword ''EXEC'', keyword ''LOCK'', keyword ''UNLOCK'',
      [WordBoundary, Lit ''INTO'', Plus Space, Lit ''OUTFILE'', WordBoundary],
      [WordBoundary, Lit ''LOAD'', Plus Space, Lit ''DATA'', WordBoundary],
      [WordBoundary, Lit ''LOAD_FILE'', Star Space, Lit ''('']]"

text \<open>The scan of \<open>static_check_sql\<close> and of \<open>_is_readonly_select\<close>.\<close>

definition forbidden_hits :: "string \<Rightarrow> pattern list" where
  "forbidden_hits sql =
     (let scrubbed = remove_comments_and_strings sql
      in filter (\<lambda>pat. re_search pat scrubbed) FORBIDDEN_TOKENS)"

subsection \<open>The two gates of execution and export\<close>

definition strip :: "string \<Rightarrow> string" where
  "strip s = dropWhile is_space (rev (dropWhile is_space (rev s)))"

definition is_single_statement :: "string \<Rightarrow> bool" where
  "is_single_statement sql =
     (let scrubbed = remove_comments_and_strings sql;
          trimmed = strip scrubbed;
          trimmed = (if trimmed \<noteq> [] \<and> last trimmed = CHR '';'' then strip (butlast trimmed)
                     else trimmed)
      in CHR '';'' \<notin> set trimmed)"

text \<open>\<open>^\s*[\(]*\s*(select|with)\b\<close>, tried at the start of the text only.\<close>

definition head_match :: "string \<Rightarrow> bool" where
  "head_match sql \<longleftrightarrow>
     match_here [Star Space, Star LParen, Star Space, Lit ''select'', WordBoundary] None sql \<or>
     match_here [Star Space, Star LParen, Star Space, Lit ''with'', WordBoundary] None sql"

definition is_readonly_select :: "string \<Rightarrow> bool" where
  "is_readonly_select sql =
     (if \<not> head_match sql then False
      else if forbidden_hits sql \<noteq> [] then False
      else True)"

section \<open>Static validation\<close>

text \<open>
  Exceptions are values: the arguments of the exception, its \<open>sqlstate\<close> attribute if it has
  one, and its text \<open>str(e)\<close>.
\<close>

datatype pyval = PInt int | PStr string

datatype exn = Exn "pyval list" "string option" string

fun exn_args :: "exn \<Rightarrow> pyval list" where
  "exn_args (Exn a s m) = a"

fun exn_sqlstate :: "exn \<Rightarrow> string option" where
  "exn_sqlstate (Exn a s m) = s"

fun exn_str :: "exn \<Rightarrow> string" where
  "exn_str (Exn a s m) = m"

text \<open>
  The findings and the parts of the summary stand for the fixed texts of the source; each
  carries what the source interpolates into its text.
\<close>

datatype finding =
    SQL_PARSE_ERROR exn
  | MULTI_STATEMENT nat
  | NON_READONLY
  | FORBIDDEN_TOKEN "pattern list"

datatype summary_part =
    ParseFailed
  | HasMultiStatement
  | NotReadonlyOrForbidden
  | TablesMissing nat
  | ColumnsMissing nat
  | ColumnsAmbiguous nat

record static_result =
  sr_status :: string
  multi_statement_status :: string
  readonly_status :: string
  readonly_forbidden :: "pattern list"
  schema_match_status :: string
  missing_tables :: "missing_table list"
  missing_columns :: "missing_column list"
  ambiguous_columns :: "ambiguous_column list"
  findings :: "finding list"
  summary :: "summary_part list"

text \<open>
  \<open>static_check_sql\<close>. The parser and the schema snapshot are outside the repository: the
  function takes what \<open>sqlglot.parse\<close> answered (an exception, or the top-level expressions,
  \<open>None\<close> for an empty statement) and what \<open>_fetch_schema_snapshot\<close> answered. An exception
  that the source does not catch is the result \<open>Inl\<close>: the failure of the snapshot, and the
  attribute error of \<open>_check_schema_columns\<close> on \<open>None\<close>.
\<close>

definition AttributeError :: exn where
  "AttributeError = Exn [PStr ''find_all''] None ''AttributeError''"

definition static_check_sql ::
  "(exn + expr option list) \<Rightarrow> (exn + schema) \<Rightarrow> string \<Rightarrow> exn + static_result" where
  "static_check_sql parsed snapshot sql =
     (case parsed of
        Inl e \<Rightarrow>
          Inr \<lparr>sr_status = ''fail'', multi_statement_status = ''pass'',
               readonly_status = ''pass'', readonly_forbidden = [],
               schema_match_status = ''pass'', missing_tables = [], missing_columns = [],
               ambiguous_columns = [], findings = [SQL_PARSE_ERROR e],
               summary = [ParseFailed]\<rparr>
      | Inr exprs \<Rightarrow>
          (let multi = (length exprs \<noteq> 1);
               findings1 = (if multi then [MULTI_STATEMENT (length exprs)] else []);
               not_select =
                 (case exprs of
                    [] \<Rightarrow> False
                  | top_expr # rest \<Rightarrow>
                      (case top_expr of None \<Rightarrow> True | Some t \<Rightarrow> \<not> is_select_like t));
               findings2 = findings1 @ (if not_select then [NON_READONLY] else []);
               forbidden_hits = forbidden_hits sql;
               findings3 =
                 findings2 @
                 (if forbidden_hits \<noteq> [] then [FORBIDDEN_TOKEN forbidden_hits] else []);
               multi_status = (if multi then ''fail'' else ''pass'');
               readonly = (if not_select \<or> forbidden_hits \<noteq> [] then ''fail'' else ''pass'')
           in case snapshot of
                Inl e \<Rightarrow> Inl e
              | Inr schema_tables \<Rightarrow>
                  (case (case exprs of
                           [] \<Rightarrow> Inr ([], [], [])
                         | top_expr # rest \<Rightarrow>
                             (case top_expr of
                                None \<Rightarrow> Inl AttributeError
                              | Some t \<Rightarrow> Inr (check_schema_columns t schema_tables))) of
                     Inl e \<Rightarrow> Inl e
                   | Inr (mt, mc, ac) \<Rightarrow>
                       (let schema_status =
                              (if mt \<noteq> [] \<or> mc \<noteq> [] then ''fail''
                               else if ac \<noteq> [] then ''warn''
                               else ''pass'');
                            overall_status =
                              (if multi_status = ''fail'' \<or> readonly = ''fail'' \<or>
                                  schema_status = ''fail''
                               then ''fail'' else ''pass'');
                            parts =
                              (if multi_status = ''fail'' then [HasMultiStatement] else []) @
                              (if readonly = ''fail'' then [NotReadonlyOrForbidden] else []) @
                              (if mt \<noteq> [] then [TablesMissing (length mt)] else []) @
                              (if mc \<noteq> [] then [ColumnsMissing (length mc)] else []) @
                              (if ac \<noteq> [] then [ColumnsAmbiguous (length ac)] else [])
                        in Inr \<lparr>sr_status = overall_status,
                                multi_statement_status = multi_status,
                                readonly_status = readonly,
                                readonly_forbidden = forbidden_hits,
                                schema_match_status = schema_status,
                                missing_tables = mt, missing_columns = mc,
                                ambiguous_columns = ac, findings = findings3,
                                summary = parts\<rparr>))))"

section \<open>Execution coordinator\<close>

text \<open>
  The store is outside the repository. A run of the coordinator sees: whether connecting
  and opening a cursor fail, what executing a query and fetching its rows give (rows are
  dicts, kept as association lists), and what \<open>int()\<close> makes of a fetched value.
\<close>

type_synonym 'v row = "(string \<times> 'v) list"

record 'v db =
  connect_error :: "exn option"
  cursor_error :: "exn option"
  run :: "string \<Rightarrow> exn + 'v row list"
  to_int :: "'v \<Rightarrow> exn + int"

datatype store_op = Connect | Execute string | Close

text \<open>\<open>str()\<close> of an integer, for the \<open>LIMIT\<close> of the preview query.\<close>

fun digits :: "nat \<Rightarrow> string" where
  "digits n =
     (if n < 10 then [char_of (48 + n)] else digits (n div 10) @ [char_of (48 + n mod 10)])"

definition str_int :: "int \<Rightarrow> string" where
  "str_int i = (if i < 0 then CHR ''-'' # digits (nat (- i)) else digits (nat i))"

definition rstrip_semicolon :: "string \<Rightarrow> string" where
  "rstrip_semicolon s = rev (dropWhile (\<lambda>c. c = CHR '';'') (rev s))"

definition count_sql :: "string \<Rightarrow> string" where
  "count_sql sql = ''SELECT COUNT(*) AS __cnt FROM ( '' @ rstrip_semicolon sql @ '' ) AS __t''"

definition preview_sql :: "string \<Rightarrow> int \<Rightarrow> string" where
  "preview_sql sql pool_limit =
     ''SELECT * FROM ( '' @ rstrip_semicolon sql @ '' ) AS __t LIMIT '' @ str_int pool_limit"

definition count_rows :: "'v db \<Rightarrow> string \<Rightarrow> exn + int" where
  "count_rows d sql =
     (case run d (count_sql sql) of
        Inl e \<Rightarrow> Inl e
      | Inr rows \<Rightarrow>
          (case rows of
             [] \<Rightarrow> Inr 0
           | row # others \<Rightarrow>
               (case map_of row ''__cnt'' of
                  None \<Rightarrow> Inr 0
                | Some v \<Rightarrow> to_int d v)))"

text \<open>
  \<open>random.sample(range(n), k)\<close> raises \<open>ValueError\<close> when \<open>k\<close> is negative or larger than
  \<open>n\<close>; otherwise it answers \<open>k\<close> distinct indices below \<open>n\<close>. Which ones is the random
  source \<open>rnd\<close>; \<open>sample_ok\<close> is what the library promises of it.
\<close>

definition ValueError :: exn where
  "ValueError =
     Exn [PStr ''Sample larger than population or is negative''] None
       ''Sample larger than population or is negative''"

definition IndexError :: exn where
  "IndexError = Exn [PStr ''list index out of range''] None ''list index out of range''"

definition random_sample :: "(nat \<Rightarrow> nat \<Rightarrow> nat list) \<Rightarrow> nat \<Rightarrow> int \<Rightarrow> exn + nat list" where
  "random_sample rnd n k =
     (if k < 0 \<or> int n < k then Inl ValueError else Inr (rnd n (nat k)))"

definition sample_ok :: "(nat \<Rightarrow> nat \<Rightarrow> nat list) \<Rightarrow> nat \<Rightarrow> nat \<Rightarrow> bool" where
  "sample_ok rnd n k \<longleftrightarrow>
     length (rnd n k) = k \<and> distinct (rnd n k) \<and> list_all (\<lambda>i. i < n) (rnd n k)"

text \<open>The sampling step of \<open>_preview_rows\<close>, on the fetched pool.\<close>

definition sample_pool ::
  "(nat \<Rightarrow> nat \<Rightarrow> nat list) \<Rightarrow> 'a list \<Rightarrow> int \<Rightarrow> exn + 'a list" where
  "sample_pool rnd pool sample_limit =
     (if pool = [] then Inr []
      else if int (length pool) \<le> sample_limit then Inr pool
      else
        (case random_sample rnd (length pool) sample_limit of
           Inl e \<Rightarrow> Inl e
         | Inr idxs \<Rightarrow>
             if list_all (\<lambda>i. i < length pool) idxs then Inr (map (\<lambda>i. pool ! i) idxs)
             else Inl IndexError))"

definition preview_rows ::
  "'v db \<Rightarrow> (nat \<Rightarrow> nat \<Rightarrow> nat list) \<Rightarrow> string \<Rightarrow> int \<Rightarrow> int \<Rightarrow> exn + 'v row list" where
  "preview_rows d rnd sql pool_limit sample_limit =
     (case run d (preview_sql sql pool_limit) of
        Inl e \<Rightarrow> Inl e
      | Inr pool \<Rightarrow> sample_pool rnd pool sample_limit)"

text \<open>
  The texts of the outcomes, and what is interpolated into them: "execution failed",
  "execution succeeded", "COUNT failed: (the exception); sample rows are returned for
  reference", and "the result is empty; check the filter conditions against the schema and
  the sample data". The texts of the errors: "only a single statement is allowed", "only
  read-only queries are allowed, or a dangerous keyword was found", "connecting to the
  database failed: (the exception)", and the text of an exception.
\<close>

datatype message =
    ExecFailed
  | ExecSucceeded
  | CountFailedNote exn
  | EmptyResultHint

datatype error_text =
    OnlySingleStatement
  | OnlyReadonly
  | ConnectFailed exn
  | ExnText string

record err =
  err_code :: "pyval option"
  err_sqlstate :: "string option"
  err_message :: error_text

record 'v outcome =
  ok :: bool
  stage :: string
  status :: string
  row_count :: "int option"
  sample_rows :: "'v row list option"
  error :: "err option"
  message :: message

definition runtime_error :: "err \<Rightarrow> 'v outcome" where
  "runtime_error e =
     \<lparr>ok = False, stage = ''dynamic'', status = ''runtime_error'', row_count = None,
      sample_rows = None, error = Some e, message = ExecFailed\<rparr>"

definition err_of :: "exn \<Rightarrow> err" where
  "err_of e =
     \<lparr>err_code = (case exn_args e of [] \<Rightarrow> None | a # others \<Rightarrow> Some a),
      err_sqlstate = exn_sqlstate e, err_message = ExnText (exn_str e)\<rparr>"

definition success :: "int \<Rightarrow> 'v row list \<Rightarrow> message \<Rightarrow> 'v outcome" where
  "success n rows msg =
     \<lparr>ok = True, stage = ''dynamic'', status = ''success'', row_count = Some n,
      sample_rows = Some rows, error = None, message = msg\<rparr>"

text \<open>
  \<open>dynamic_check_sql\<close>: the outcome, and the operations on the store in the order they
  were made.
\<close>

definition dynamic_check_sql ::
  "'v db \<Rightarrow> (nat \<Rightarrow> nat \<Rightarrow> nat list) \<Rightarrow> string \<Rightarrow> int \<Rightarrow> int \<Rightarrow> 'v outcome \<times> store_op list" where
  "dynamic_check_sql d rnd sql sample_limit preview_pool =
     (if \<not> is_single_statement sql then
        (runtime_error
           \<lparr>err_code = None, err_sqlstate = None, err_message = OnlySingleStatement\<rparr>, [])
      else if \<not> is_readonly_select sql then
        (runtime_error \<lparr>err_code = None, err_sqlstate = None, err_message = OnlyReadonly\<rparr>, [])
      else
        (case connect_error d of
           Some e \<Rightarrow>
             (runtime_error
                \<lparr>err_code = None, err_sqlstate = None, err_message = ConnectFailed e\<rparr>,
              [Connect])
         | None \<Rightarrow>
             (case cursor_error d of
                Some e \<Rightarrow> (runtime_error (err_of e), [Connect, Close])
              | None \<Rightarrow>
                  (let counted = count_rows d sql;
                       ops = [Connect, Execute (count_sql sql),
                              Execute (preview_sql sql preview_pool), Close]
                   in case preview_rows d rnd sql preview_pool sample_limit of
                        Inl pe \<Rightarrow> (runtime_error (err_of pe), ops)
                      | Inr samples \<Rightarrow>
                          (let (row_count, note) =
                                 (case counted of
                                    Inl count_err \<Rightarrow>
                                      (int (length samples), CountFailedNote count_err)
                                  | Inr total_rows \<Rightarrow> (total_rows, ExecSucceeded))
                           in if row_count = 0 then (success 0 [] EmptyResultHint, ops)
                              else (success row_count samples note, ops))))))"

section \<open>Streaming result exporter\<close>

text \<open>
  What a run of the exporter sees beyond the store: whether creating the output directory
  fails, the time stamp and the random part of the file name, whether opening the file
  fails, what executing the statement gives (an exception, or the column names of
  \<open>cursor.description\<close> and what the successive calls of \<open>fetchmany\<close> give: a batch of
  rows, or an exception), whether writing a row after the rows already written fails,
  whether closing the file fails, and whether \<open>os.remove\<close> fails.
\<close>

datatype 'v csv_row = Header "string list" | Data "'v option list"

record 'v csv_file =
  encoding :: string
  content :: "'v csv_row list"

type_synonym 'v fs = "string \<rightharpoonup> 'v csv_file"

record 'v export_env = "'v db" +
  makedirs_error :: "exn option"
  timestamp :: string
  rand_id :: string
  open_error :: "exn option"
  execute_export :: "string \<Rightarrow> int \<Rightarrow> exn + string list \<times> (exn + 'v row list) list"
  writerow_error :: "'v csv_row list \<Rightarrow> 'v csv_row \<Rightarrow> exn option"
  close_error :: "exn option"
  remove_error :: "exn option"

datatype save_message = SaveFailed | SavedHeaderOnly | Saved nat

record save_outcome =
  s_ok :: bool
  s_stage :: string
  s_status :: string
  s_file_path :: "string option"
  s_rows_written :: "nat option"
  s_error :: "error_text option"
  s_message :: save_message

definition save_failed :: "error_text \<Rightarrow> save_outcome" where
  "save_failed e =
     \<lparr>s_ok = False, s_stage = ''save'', s_status = ''runtime_error'', s_file_path = None,
      s_rows_written = None, s_error = Some e, s_message = SaveFailed\<rparr>"

definition writerow ::
  "('v, 'z) export_env_scheme \<Rightarrow> 'v csv_file \<Rightarrow> 'v csv_row \<Rightarrow> exn option \<times> 'v csv_file" where
  "writerow env f r =
     (case writerow_error env (content f) r of
        Some e \<Rightarrow> (Some e, f)
      | None \<Rightarrow> (None, f\<lparr>content := content f @ [r]\<rparr>))"

text \<open>\<open>for row in batch: writer.writerow([row.get(col) for col in colnames])\<close>.\<close>

fun write_batch ::
  "('v, 'z) export_env_scheme \<Rightarrow> string list \<Rightarrow> 'v csv_file \<Rightarrow> 'v row list \<Rightarrow>
   exn option \<times> 'v csv_file" where
  "write_batch env colnames f [] = (None, f)"
| "write_batch env colnames f (row # rows) =
     (case writerow env f (Data (map (map_of row) colnames)) of
        (Some e, f1) \<Rightarrow> (Some e, f1)
      | (None, f1) \<Rightarrow> write_batch env colnames f1 rows)"

text \<open>
  The \<open>while True\<close> loop over the batches; an empty batch, or a cursor with nothing left,
  ends it. The result is the exception that left the loop, if any, the file and
  \<open>rows_written\<close>.
\<close>

fun export_loop ::
  "('v, 'z) export_env_scheme \<Rightarrow> string list \<Rightarrow> (exn + 'v row list) list \<Rightarrow> 'v csv_file \<Rightarrow>
   nat \<Rightarrow> exn option \<times> 'v csv_file \<times> nat" where
  "export_loop env colnames [] f rows_written = (None, f, rows_written)"
| "export_loop env colnames (Inl e # later) f rows_written = (Some e, f, rows_written)"
| "export_loop env colnames (Inr batch # later) f rows_written =
     (if batch = [] then (None, f, rows_written)
      else
        (case write_batch env colnames f batch of
           (Some e, f1) \<Rightarrow> (Some e, f1, rows_written)
         | (None, f1) \<Rightarrow> export_loop env colnames later f1 (rows_written + length batch)))"

text \<open>
  The body of the \<open>try\<close>: the exception that left it, if any, the file system and
  \<open>rows_written\<close> at that moment, and the operations made on the store.
\<close>

definition export_body ::
  "('v, 'z) export_env_scheme \<Rightarrow> 'v fs \<Rightarrow> string \<Rightarrow> string \<Rightarrow> int \<Rightarrow> string \<Rightarrow>
   exn option \<times> 'v fs \<times> nat \<times> store_op list" where
  "export_body env files file_path sql fetch_size enc =
     (case cursor_error env of
        Some e \<Rightarrow> (Some e, files, 0, [])
      | None \<Rightarrow>
          (case open_error env of
             Some e \<Rightarrow> (Some e, files, 0, [])
           | None \<Rightarrow>
               (let f0 = \<lparr>encoding = enc, content = []\<rparr> in
                case execute_export env sql fetch_size of
                  Inl e \<Rightarrow> (Some e, files(file_path \<mapsto> f0), 0, [Execute sql])
                | Inr (colnames, batches) \<Rightarrow>
                    (case (if colnames \<noteq> [] then writerow env f0 (Header colnames)
                           else (None, f0)) of
                       (Some e, f1) \<Rightarrow> (Some e, files(file_path \<mapsto> f1), 0, [Execute sql])
                     | (None, f1) \<Rightarrow>
                         (case export_loop env colnames batches f1 0 of
                            (Some e, f2, n) \<Rightarrow>
                              (Some e, files(file_path \<mapsto> f2), n, [Execute sql])
                          | (None, f2, n) \<Rightarrow>
                              (close_error env, files(file_path \<mapsto> f2), n,
                               [Execute sql]))))))"

definition export_path :: "('v, 'z) export_env_scheme \<Rightarrow> string" where
  "export_path env = ''../exports/'' @ ''query_'' @ timestamp env @ ''_'' @ rand_id env @ ''.csv''"

text \<open>
  The \<open>except\<close> branch: the file is removed when it exists; a failure of the removal is
  swallowed.
\<close>

definition cleanup :: "('v, 'z) export_env_scheme \<Rightarrow> 'v fs \<Rightarrow> string \<Rightarrow> 'v fs" where
  "cleanup env files file_path =
     (if files file_path \<noteq> None then
        (case remove_error env of
           None \<Rightarrow> files(file_path := None)
         | Some e \<Rightarrow> files)
      else files)"

text \<open>
  \<open>save_to_csv\<close>: an exception the source does not catch (\<open>os.makedirs\<close>) is \<open>Inl\<close>;
  otherwise the outcome, the file system afterwards and the operations on the store.
\<close>

definition save_to_csv ::
  "('v, 'z) export_env_scheme \<Rightarrow> 'v fs \<Rightarrow> string \<Rightarrow> int \<Rightarrow> bool \<Rightarrow>
   exn + save_outcome \<times> 'v fs \<times> store_op list" where
  "save_to_csv env files sql fetch_size excel_friendly =
     (if \<not> is_single_statement sql then Inr (save_failed OnlySingleStatement, files, [])
      else if \<not> is_readonly_select sql then Inr (save_failed OnlyReadonly, files, [])
      else
        (case makedirs_error env of
           Some e \<Rightarrow> Inl e
         | None \<Rightarrow>
             (let file_path = export_path env in
              case connect_error env of
                Some e \<Rightarrow> Inr (save_failed (ConnectFailed e), files, [Connect])
              | None \<Rightarrow>
                  (let enc = (if excel_friendly then ''utf-8-sig'' else ''utf-8'') in
                   case export_body env files file_path sql fetch_size enc of
                     (Some e, files1, rows_written, ops) \<Rightarrow>
                       Inr (save_failed (ExnText (exn_str e)), cleanup env files1 file_path,
                            Connect # ops @ [Close])
                   | (None, files1, rows_written, ops) \<Rightarrow>
                       if rows_written = 0 then
                         Inr (\<lparr>s_ok = True, s_stage = ''save'', s_status = ''empty'',
                               s_file_path = Some file_path, s_rows_written = Some 0,
                               s_error = None, s_message = SavedHeaderOnly\<rparr>,
                              files1, Connect # ops @ [Close])
                       else
                         Inr (\<lparr>s_ok = True, s_stage = ''save'', s_status = ''success'',
                               s_file_path = Some file_path,
                               s_rows_written = Some rows_written, s_error = None,
                               s_message = Saved rows_written\<rparr>,
                              files1, Connect # ops @ [Close])))))"

section \<open>Reference notions: the keyword at the head, the text outside comments and literals\<close>

text \<open>
  A text begins with the keyword \<open>SELECT\<close> or \<open>WITH\<close> after optional whitespace and opening
  parentheses: behind the longest run of whitespace and opening parentheses stand the
  letters of the keyword in any casing, and no word character follows them.
\<close>

definition keyword_at :: "string \<Rightarrow> string \<Rightarrow> bool" where
  "keyword_at kw s \<longleftrightarrow>
     lower (take (length kw) s) = kw \<and>
     (case drop (length kw) s of [] \<Rightarrow> True | c # cs \<Rightarrow> \<not> is_word c)"

definition skippable :: "char \<Rightarrow> bool" where
  "skippable c \<longleftrightarrow> is_space c \<or> c = CHR ''(''"

definition begins_select_or_with :: "string \<Rightarrow> bool" where
  "begins_select_or_with sql =
     (let rest = dropWhile skippable sql
      in keyword_at ''select'' rest \<or> keyword_at ''with'' rest)"






section \<open>Statements whose comments and literals are closed and not nested\<close>

text \<open>
  A statement written down piece by piece: a character of code, a \<open>--\<close> comment, a \<open>#\<close>
  comment, a block comment, or a quoted literal. The body of a literal is a sequence of
  plain characters and of escapes (a backslash and the character it takes along).
\<close>

datatype item = Ch char | Esc char

fun item_text :: "item \<Rightarrow> string" where
  "item_text (Ch c) = [c]"
| "item_text (Esc c) = [backslash, c]"

definition body_text :: "item list \<Rightarrow> string" where
  "body_text its = concat (map item_text its)"

datatype piece =
    Plain char
  | DashComment string
  | HashComment string
  | BlockComment string
  | Literal char "item list"

fun piece_text :: "piece \<Rightarrow> string" where
  "piece_text (Plain c) = [c]"
| "piece_text (DashComment b) = ''--'' @ b"
| "piece_text (HashComment b) = ''#'' @ b"
| "piece_text (BlockComment b) = ''/*'' @ b @ ''*/''"
| "piece_text (Literal q its) = [q] @ body_text its @ [q]"

definition statement_text :: "piece list \<Rightarrow> string" where
  "statement_text ps = concat (map piece_text ps)"

fun adjacent :: "char \<Rightarrow> char \<Rightarrow> string \<Rightarrow> bool" where
  "adjacent a b [] = False"
| "adjacent a b [x] = False"
| "adjacent a b (x # y # r) = ((x = a \<and> y = b) \<or> adjacent a b (y # r))"





text \<open>
  What a piece looks like after the first \<open>n\<close> of the five scrubbing passes: a \<open>--\<close> comment
  is a blank from the first pass on, a \<open>#\<close> comment from the second (the first pass may
  already have blanked a \<open>--\<close> inside it), a block comment from the third, a single-quoted
  literal is its two quotes from the fourth and a double-quoted one from the fifth.
\<close>

fun shown :: "nat \<Rightarrow> piece \<Rightarrow> string" where
  "shown n (Plain c) = [c]"
| "shown n (DashComment b) = (if 1 \<le> n then '' '' else ''--'' @ b)"
| "shown n (HashComment b) =
     (if 2 \<le> n then '' ''
      else if n = 1 then ''#'' @ re_sub line_comment_dash '' '' b
      else ''#'' @ b)"
| "shown n (BlockComment b) = (if 3 \<le> n then '' '' else ''/*'' @ b @ ''*/'')"
| "shown n (Literal q its) =
     (if (q = squote \<and> 4 \<le> n) \<or> 5 \<le> n then [q, q] else [q] @ body_text its @ [q])"

definition after_passes :: "nat \<Rightarrow> piece list \<Rightarrow> string" where
  "after_passes n ps = concat (map (shown n) ps)"

section \<open>Concrete inputs\<close>

text \<open>
  The statement \<open>SELECT id FROM users u\<close> as the parser hands it over, and a snapshot in
  which \<open>users\<close> has the columns \<open>id\<close> and \<open>name\<close>.
\<close>

definition aliased_query :: expr where
  "aliased_query =
     Expr exp_Select ''''
       [Expr (exp_Column ''id'' '''') ''expressions'' [],
        Expr exp_Other ''from'' [Expr (exp_Table ''users'' (Some ''u'')) ''this'' []]]"

definition users_schema :: schema where
  "users_schema = [''users'' \<mapsto> {''id'', ''name''}]"

text \<open>The statement \<open>SELECT Derived.x FROM (SELECT ...) AS derived\<close>.\<close>

definition derived_query :: expr where
  "derived_query =
     Expr exp_Select ''''
       [Expr (exp_Column ''x'' ''Derived'') ''expressions'' [],
        Expr exp_Other ''from''
          [Expr (exp_Subquery (Some ''derived'')) ''this'' [Expr exp_Select ''this'' []]]]"

text \<open>What static validation answers for \<open>SELECT id FROM users u\<close>.\<close>

definition aliased_result :: static_result where
  "aliased_result =
     \<lparr>sr_status = ''pass'', multi_statement_status = ''pass'', readonly_status = ''pass'',
      readonly_forbidden = [], schema_match_status = ''warn'', missing_tables = [],
      missing_columns = [],
      ambiguous_columns =
        [\<lparr>ac_column = ''id'', ac_candidates = [''users.id'', ''users.id''],
          ac_context = ''select''\<rparr>],
      findings = [], summary = [ColumnsAmbiguous 1]\<rparr>"

text \<open>A random source that answered the indices 2 and 0, and one that is never asked.\<close>

definition picked_2_0 :: "nat \<Rightarrow> nat \<Rightarrow> nat list" where
  "picked_2_0 n k = [2, 0]"

definition never_asked :: "nat \<Rightarrow> nat \<Rightarrow> nat list" where
  "never_asked n k = []"

text \<open>
  A store on which the count query of \<open>SELECT a FROM t\<close> fails and every other query gives
  three rows; and a store on which the count query fails and every other query gives no
  row.
\<close>

definition count_error :: exn where
  "count_error = Exn [PInt 1060, PStr ''Duplicate column name''] None ''(1060, Duplicate column name)''"

definition three_rows :: "int row list" where
  "three_rows = [[(''a'', 10)], [(''a'', 20)], [(''a'', 30)]]"

definition count_failing_db :: "int db" where
  "count_failing_db =
     \<lparr>connect_error = None, cursor_error = None,
      run = (\<lambda>q. if q = count_sql ''SELECT a FROM t'' then Inl count_error
                   else Inr three_rows),
      to_int = Inr\<rparr>"

definition empty_db :: "int db" where
  "empty_db =
     \<lparr>connect_error = None, cursor_error = None,
      run = (\<lambda>q. if q = count_sql ''SELECT a FROM t'' then Inl count_error else Inr []),
      to_int = Inr\<rparr>"

text \<open>
  An export in which the second \<open>fetchmany\<close> fails after a first batch of one row was
  written: once with a working \<open>os.remove\<close>, once with a failing one.
\<close>

definition lost_connection :: exn where
  "lost_connection = Exn [PInt 2013, PStr ''Lost connection''] None ''(2013, Lost connection)''"

definition permission_denied :: exn where
  "permission_denied = Exn [PInt 13, PStr ''Permission denied''] None ''Permission denied''"

definition breaking_export :: "int export_env" where
  "breaking_export =
     \<lparr>connect_error = None, cursor_error = None, run = (\<lambda>q. Inr []), to_int = Inr,
      makedirs_error = None, timestamp = ''20250101_000000'', rand_id = ''0a1b2c3d'',
      open_error = None,
      execute_export = (\<lambda>q n. Inr ([''a''], [Inr [[(''a'', 10)]], Inl lost_connection])),
      writerow_error = (\<lambda>written r. None), close_error = None, remove_error = None\<rparr>"

definition stuck_export :: "int export_env" where
  "stuck_export = breaking_export\<lparr>remove_error := Some permission_denied\<rparr>"

text \<open>A read-only statement behind a comment line: \<open>-- recent\<close>, newline, \<open>SELECT 1\<close>.\<close>

definition commented_select :: string where
  "commented_select = ''-- recent'' @ [newline] @ ''SELECT 1''"








section \<open>Verified properties\<close>

subsection \<open>Name resolver\<close>

lemma lower_Nil_iff: "lower s = [] \<longleftrightarrow> s = []"
  by (simp add: lower_def)

lemma derived_alias_collected:
  assumes "(anc', Expr k a' cs') \<in> set (walk root)"
    and "k = exp_CTE d \<or> k = exp_Subquery (Some d)"
    and "d \<noteq> []"
  shows "lower d \<in> collect_derived_aliases root"
  using assms by (force simp: collect_derived_aliases_def find_all_def)

text \<open>
  C1, on the code: for \<open>SELECT id FROM users u\<close> the alias map has the two entries
  \<open>u \<mapsto> users\<close> and \<open>users \<mapsto> users\<close>; the loop over its items counts the table \<open>users\<close>
  twice, and the unprefixed column \<open>id\<close> of a single table is reported as ambiguous with
  the candidates \<open>users.id\<close>, \<open>users.id\<close>.
\<close>

theorem single_aliased_table_reported_ambiguous:
  "check_schema_columns aliased_query users_schema =
     ([], [],
      [\<lparr>ac_column = ''id'', ac_candidates = [''users.id'', ''users.id''],
        ac_context = ''select''\<rparr>])"
  by (simp add: check_schema_columns_def collect_real_table_aliases_def
      collect_derived_aliases_def find_all_def walk_def lower_def is_upper_def
      candidates_of_def lowered_keys_def lowered_columns_def Let_def
      aliased_query_def users_schema_def)

text \<open>
  C3: when the statement holds a CTE named \<open>d\<close> or a subquery aliased \<open>d\<close>, a column
  reference whose table prefix is \<open>d\<close> (in any casing) adds no finding, whatever its column
  name and whatever the schema snapshot: the round of the loop for this reference leaves
  the lists of missing and ambiguous columns as they were.
\<close>

theorem derived_prefix_never_reported:
  assumes "(anc', Expr k a' cs') \<in> set (walk root)"
    and "k = exp_CTE d \<or> k = exp_Subquery (Some d)"
    and "d \<noteq> []"
    and "lower tbl = lower d"
  shows "check_column (collect_real_table_aliases root) (collect_derived_aliases root)
           schema_tables acc (anc, Expr (exp_Column name tbl) a cs) = acc"
proof -
  have "lower tbl \<in> collect_derived_aliases root"
    using derived_alias_collected [OF assms(1-3)] assms(4) by simp
  moreover have "tbl \<noteq> []"
    using assms(3,4) lower_Nil_iff by metis
  ultimately show ?thesis
    by (cases acc) (simp add: Let_def)
qed

theorem derived_prefix_never_reported_witness:
  "([exp_Other, exp_Select],
    Expr (exp_Subquery (Some ''derived'')) ''this'' [Expr exp_Select ''this'' []])
      \<in> set (walk derived_query) \<and>
   ''derived'' \<noteq> [] \<and> lower ''Derived'' = lower ''derived'' \<and>
   check_column (collect_real_table_aliases derived_query)
     (collect_derived_aliases derived_query) Map.empty ([], [])
     ([exp_Select], Expr (exp_Column ''x'' ''Derived'') ''expressions'' []) = ([], [])"
proof -
  have m: "([exp_Other, exp_Select],
            Expr (exp_Subquery (Some ''derived'')) ''this'' [Expr exp_Select ''this'' []])
             \<in> set (walk derived_query)"
    by (simp add: walk_def derived_query_def)
  have l: "lower ''Derived'' = lower ''derived''"
    by (simp add: lower_def is_upper_def)
  show ?thesis
    using m l
      derived_prefix_never_reported [where root = derived_query and d = "''derived''"
        and tbl = "''Derived''" and k = "exp_Subquery (Some ''derived'')"
        and schema_tables = Map.empty and acc = "([], [])" and anc = "[exp_Select]"
        and name = "''x''" and a = "''expressions''" and cs = "[]", OF m]
    by simp
qed

text \<open>
  C9: a column reference with a table prefix that is neither a derived alias nor a key of
  the alias map adds no finding: the round of the loop for this reference leaves the lists
  of missing and ambiguous columns as they were.
\<close>

theorem unresolvable_prefix_skipped:
  assumes "tbl \<noteq> []"
    and "lower tbl \<notin> derived_aliases"
    and "lower tbl \<notin> fst ` set real_aliases"
  shows "check_column real_aliases derived_aliases schema_tables acc
           (anc, Expr (exp_Column name tbl) a cs) = acc"
proof -
  have "map_of real_aliases (lower tbl) = None"
    using assms(3) by (simp add: map_of_eq_None_iff)
  then show ?thesis
    using assms(1,2) by (cases acc) (simp add: Let_def)
qed

theorem unresolvable_prefix_skipped_witness:
  "''ghost'' \<noteq> [] \<and> lower ''ghost'' \<notin> collect_derived_aliases aliased_query \<and>
   lower ''ghost'' \<notin> fst ` set (collect_real_table_aliases aliased_query) \<and>
   check_column (collect_real_table_aliases aliased_query)
     (collect_derived_aliases aliased_query) users_schema ([], [])
     ([exp_Where, exp_Select], Expr (exp_Column ''nope'' ''ghost'') ''this'' []) = ([], [])"
proof -
  have d: "lower ''ghost'' \<notin> collect_derived_aliases aliased_query"
    by (simp add: collect_derived_aliases_def find_all_def walk_def aliased_query_def)
  have r: "lower ''ghost'' \<notin> fst ` set (collect_real_table_aliases aliased_query)"
    by (simp add: collect_real_table_aliases_def find_all_def walk_def aliased_query_def
        lower_def is_upper_def Let_def)
  show ?thesis
    using d r
      unresolvable_prefix_skipped [where tbl = "''ghost''"
        and derived_aliases = "collect_derived_aliases aliased_query"
        and real_aliases = "collect_real_table_aliases aliased_query"
        and schema_tables = users_schema and acc = "([], [])"
        and anc = "[exp_Where, exp_Select]" and name = "''nope''" and a = "''this''"
        and cs = "[]"]
    by simp
qed

subsection \<open>Static validation\<close>

lemma static_result_shape:
  assumes "static_check_sql parsed snapshot sql = Inr r"
  shows "schema_match_status r =
           (if missing_tables r \<noteq> [] \<or> missing_columns r \<noteq> [] then ''fail''
            else if ambiguous_columns r \<noteq> [] then ''warn'' else ''pass'') \<and>
         (ambiguous_columns r \<noteq> [] \<longrightarrow>
            sr_status r =
              (if multi_statement_status r = ''fail'' \<or> readonly_status r = ''fail'' \<or>
                  schema_match_status r = ''fail''
               then ''fail'' else ''pass''))"
proof (cases parsed)
  case (Inl e)
  then show ?thesis
    using assms [symmetric] by (simp add: static_check_sql_def)
next
  case (Inr exprs)
  show ?thesis
  proof (cases snapshot)
    case (Inl e)
    then show ?thesis
      using assms Inr by (simp add: static_check_sql_def Let_def)
  next
    case sn: (Inr schema_tables)
    show ?thesis
    proof (cases exprs)
      case Nil
      then show ?thesis
        using assms [symmetric] Inr sn by (simp add: static_check_sql_def Let_def)
    next
      case (Cons top_expr rest)
      show ?thesis
      proof (cases top_expr)
        case None
        then show ?thesis
          using assms Inr sn Cons by (simp add: static_check_sql_def Let_def)
      next
        case (Some t)
        obtain mt mc ac where c: "check_schema_columns t schema_tables = (mt, mc, ac)"
          by (cases "check_schema_columns t schema_tables") auto
        show ?thesis
          using assms [symmetric] Inr sn Cons Some c
          by (simp add: static_check_sql_def Let_def)
      qed
    qed
  qed
qed

text \<open>
  C4: in every result of static validation the status of the \<open>schema_match\<close> stage is
  \<open>fail\<close> exactly when a table or a column is missing, \<open>warn\<close> exactly when nothing is
  missing and a column is ambiguous, and \<open>pass\<close> exactly when all three lists are empty;
  and when columns are ambiguous and nothing is missing, the overall status is \<open>fail\<close>
  only if the multi-statement stage or the read-only stage failed.
\<close>

theorem schema_match_severity:
  assumes "static_check_sql parsed snapshot sql = Inr r"
  shows "(schema_match_status r = ''fail'' \<longleftrightarrow>
            missing_tables r \<noteq> [] \<or> missing_columns r \<noteq> []) \<and>
         (schema_match_status r = ''warn'' \<longleftrightarrow>
            missing_tables r = [] \<and> missing_columns r = [] \<and> ambiguous_columns r \<noteq> []) \<and>
         (schema_match_status r = ''pass'' \<longleftrightarrow>
            missing_tables r = [] \<and> missing_columns r = [] \<and> ambiguous_columns r = []) \<and>
         (ambiguous_columns r \<noteq> [] \<and> missing_tables r = [] \<and> missing_columns r = [] \<longrightarrow>
            (sr_status r = ''fail'' \<longleftrightarrow>
               multi_statement_status r = ''fail'' \<or> readonly_status r = ''fail''))"
proof -
  note shape = static_result_shape [OF assms]
  have s: "schema_match_status r =
             (if missing_tables r \<noteq> [] \<or> missing_columns r \<noteq> [] then ''fail''
              else if ambiguous_columns r \<noteq> [] then ''warn'' else ''pass'')"
    using shape by blast
  have f: "schema_match_status r = ''fail'' \<longleftrightarrow>
             missing_tables r \<noteq> [] \<or> missing_columns r \<noteq> []"
    by (subst s) auto
  have w: "schema_match_status r = ''warn'' \<longleftrightarrow>
             missing_tables r = [] \<and> missing_columns r = [] \<and> ambiguous_columns r \<noteq> []"
    by (subst s) auto
  have p: "schema_match_status r = ''pass'' \<longleftrightarrow>
             missing_tables r = [] \<and> missing_columns r = [] \<and> ambiguous_columns r = []"
    by (subst s) auto
  have o: "ambiguous_columns r \<noteq> [] \<and> missing_tables r = [] \<and> missing_columns r = [] \<longrightarrow>
             (sr_status r = ''fail'' \<longleftrightarrow>
                multi_statement_status r = ''fail'' \<or> readonly_status r = ''fail'')"
  proof (intro impI)
    assume a: "ambiguous_columns r \<noteq> [] \<and> missing_tables r = [] \<and> missing_columns r = []"
    then have "sr_status r =
                 (if multi_statement_status r = ''fail'' \<or> readonly_status r = ''fail'' \<or>
                     schema_match_status r = ''fail''
                  then ''fail'' else ''pass'')"
      using shape by blast
    moreover have "schema_match_status r \<noteq> ''fail''"
      using a f by simp
    ultimately show "sr_status r = ''fail'' \<longleftrightarrow>
                       multi_statement_status r = ''fail'' \<or> readonly_status r = ''fail''"
      by simp
  qed
  show ?thesis
    using f w p o by blast
qed

text \<open>
  The statement \<open>SELECT id FROM users u\<close> once more: its only finding is the ambiguous
  column, the stage is \<open>warn\<close> and the overall status \<open>pass\<close>.
\<close>

theorem schema_match_severity_witness:
  "static_check_sql (Inr [Some aliased_query]) (Inr users_schema) ''SELECT id FROM users u'' =
     Inr aliased_result \<and>
   (schema_match_status aliased_result = ''fail'' \<longleftrightarrow>
      missing_tables aliased_result \<noteq> [] \<or> missing_columns aliased_result \<noteq> []) \<and>
   (schema_match_status aliased_result = ''warn'' \<longleftrightarrow>
      missing_tables aliased_result = [] \<and> missing_columns aliased_result = [] \<and>
      ambiguous_columns aliased_result \<noteq> []) \<and>
   (schema_match_status aliased_result = ''pass'' \<longleftrightarrow>
      missing_tables aliased_result = [] \<and> missing_columns aliased_result = [] \<and>
      ambiguous_columns aliased_result = []) \<and>
   ambiguous_columns aliased_result \<noteq> [] \<and> missing_tables aliased_result = [] \<and>
   missing_columns aliased_result = [] \<and>
   (sr_status aliased_result = ''fail'' \<longleftrightarrow>
      multi_statement_status aliased_result = ''fail'' \<or>
      readonly_status aliased_result = ''fail'')"
proof -
  have c: "check_schema_columns aliased_query users_schema =
             ([], [],
              [\<lparr>ac_column = ''id'', ac_candidates = [''users.id'', ''users.id''],
                ac_context = ''select''\<rparr>])"
    by (simp add: check_schema_columns_def collect_real_table_aliases_def
        collect_derived_aliases_def find_all_def walk_def lower_def is_upper_def
        candidates_of_def lowered_keys_def lowered_columns_def Let_def
        aliased_query_def users_schema_def)
  have h: "forbidden_hits ''SELECT id FROM users u'' = []"
    by code_simp
  have sl: "is_select_like aliased_query"
    by (simp add: is_select_like_def aliased_query_def)
  have e: "static_check_sql (Inr [Some aliased_query]) (Inr users_schema)
             ''SELECT id FROM users u'' = Inr aliased_result"
    by (simp add: static_check_sql_def c h sl aliased_result_def Let_def)
  have a: "ambiguous_columns aliased_result \<noteq> [] \<and> missing_tables aliased_result = [] \<and>
           missing_columns aliased_result = []"
    by (simp add: aliased_result_def)
  show ?thesis
    using e a schema_match_severity [OF e] by blast
qed

subsection \<open>Execution coordinator\<close>

lemma sample_pool_result:
  assumes "0 \<le> N"
    and "N < int (length pool) \<Longrightarrow> sample_ok rnd (length pool) (nat N)"
  shows "sample_pool rnd pool N =
           Inr (if int (length pool) \<le> N then pool
                else map (\<lambda>i. pool ! i) (rnd (length pool) (nat N)))"
proof (cases "int (length pool) \<le> N")
  case True
  then show ?thesis
    by (simp add: sample_pool_def)
next
  case False
  then have "pool \<noteq> []"
    using assms(1) by auto
  moreover have "list_all (\<lambda>i. i < length pool) (rnd (length pool) (nat N))"
    using assms(2) False by (simp add: sample_ok_def)
  ultimately show ?thesis
    using False assms(1) by (simp add: sample_pool_def random_sample_def)
qed

lemma sample_pool_length:
  assumes "0 \<le> N"
    and "N < int (length pool) \<Longrightarrow> sample_ok rnd (length pool) (nat N)"
    and "sample_pool rnd pool N = Inr rows"
  shows "length rows = min (length pool) (nat N)"
proof (cases "int (length pool) \<le> N")
  case True
  then have "rows = pool"
    using assms(3) sample_pool_result [OF assms(1,2)] by simp
  then show ?thesis
    using True by simp
next
  case False
  then have "length (rnd (length pool) (nat N)) = nat N"
    using assms(2) by (simp add: sample_ok_def)
  moreover have "rows = map (\<lambda>i. pool ! i) (rnd (length pool) (nat N))"
    using False assms(3) sample_pool_result [OF assms(1,2)] by simp
  ultimately show ?thesis
    using False by simp
qed

lemma sample_pool_negative:
  assumes "N < 0"
  shows "sample_pool rnd pool N = (if pool = [] then Inr [] else Inl ValueError)"
  using assms by (simp add: sample_pool_def random_sample_def)

text \<open>
  C5, as the code has it. Let the random source keep the promise of \<open>random.sample\<close>
  wherever the step asks it, that is when the pool has more than \<open>N\<close> rows. For a sample
  limit \<open>N\<close> that is not negative the sampling step returns rows: the whole pool when the
  pool has at most \<open>N\<close> rows, and otherwise the rows at the \<open>N\<close> distinct indices the random
  source chose; the sample has \<open>min (pool size) N\<close> rows and each of them is a row of the
  pool. For a negative sample limit the step returns no rows from an empty pool and raises
  the \<open>ValueError\<close> of \<open>random.sample\<close> on any other.
\<close>

theorem sample_is_bounded_subset_of_pool:
  assumes "0 \<le> N \<Longrightarrow> N < int (length pool) \<Longrightarrow> sample_ok rnd (length pool) (nat N)"
  shows "(0 \<le> N \<longrightarrow>
            (\<exists>rows. sample_pool rnd pool N = Inr rows \<and>
               length rows = min (length pool) (nat N) \<and> set rows \<subseteq> set pool \<and>
               (int (length pool) \<le> N \<longrightarrow> rows = pool) \<and>
               (N < int (length pool) \<longrightarrow>
                  rows = map (\<lambda>i. pool ! i) (rnd (length pool) (nat N)) \<and>
                  length (rnd (length pool) (nat N)) = nat N \<and>
                  distinct (rnd (length pool) (nat N)) \<and>
                  set (rnd (length pool) (nat N)) \<subseteq> {..<length pool}))) \<and>
         (N < 0 \<longrightarrow> sample_pool rnd pool N = (if pool = [] then Inr [] else Inl ValueError))"
proof (intro conjI impI)
  assume n: "0 \<le> N"
  let ?idxs = "rnd (length pool) (nat N)"
  let ?rows = "if int (length pool) \<le> N then pool else map (\<lambda>i. pool ! i) ?idxs"
  have r: "sample_pool rnd pool N = Inr ?rows"
    using n assms by (intro sample_pool_result) simp_all
  have l: "length ?rows = min (length pool) (nat N)"
    using n assms r by (intro sample_pool_length) simp_all
  have idx: "length ?idxs = nat N \<and> distinct ?idxs \<and> set ?idxs \<subseteq> {..<length pool}"
    if "N < int (length pool)"
    using assms [OF n that] by (auto simp: sample_ok_def list_all_iff)
  have sub: "set ?rows \<subseteq> set pool"
    using idx by (cases "int (length pool) \<le> N") auto
  show "\<exists>rows. sample_pool rnd pool N = Inr rows \<and>
          length rows = min (length pool) (nat N) \<and> set rows \<subseteq> set pool \<and>
          (int (length pool) \<le> N \<longrightarrow> rows = pool) \<and>
          (N < int (length pool) \<longrightarrow>
             rows = map (\<lambda>i. pool ! i) (rnd (length pool) (nat N)) \<and>
             length (rnd (length pool) (nat N)) = nat N \<and>
             distinct (rnd (length pool) (nat N)) \<and>
             set (rnd (length pool) (nat N)) \<subseteq> {..<length pool})"
    using r l sub idx by (intro exI [of _ ?rows]) auto
next
  assume "N < 0"
  then show "sample_pool rnd pool N = (if pool = [] then Inr [] else Inl ValueError)"
    by (rule sample_pool_negative)
qed

text \<open>
  Three rows in the pool: a limit of 2 gives the rows at the two indices drawn, the
  default limit of 10 gives the whole pool without asking the random source, and a limit
  of \<open>-1\<close> raises.
\<close>

theorem sample_is_bounded_subset_of_pool_witness:
  "sample_ok picked_2_0 (length three_rows) (nat 2) \<and>
   sample_pool picked_2_0 three_rows 2 = Inr [[(''a'', 30)], [(''a'', 10)]] \<and>
   sample_pool never_asked three_rows 10 = Inr three_rows \<and>
   sample_pool never_asked three_rows (- 1) = Inl ValueError"
proof -
  have b: "sample_ok picked_2_0 (length three_rows) (nat 2)"
    by (simp add: sample_ok_def picked_2_0_def three_rows_def)
  have v: "(0::int) \<le> 10 \<Longrightarrow> 10 < int (length three_rows) \<Longrightarrow>
           sample_ok never_asked (length three_rows) (nat 10)"
    by (simp add: three_rows_def)
  have w: "(0::int) \<le> - 1 \<Longrightarrow> - 1 < int (length three_rows) \<Longrightarrow>
           sample_ok never_asked (length three_rows) (nat (- 1))"
    by simp
  have 1: "sample_pool picked_2_0 three_rows 2 = Inr [[(''a'', 30)], [(''a'', 10)]]"
    using sample_is_bounded_subset_of_pool [of 2 three_rows picked_2_0] b
    by (auto simp: picked_2_0_def three_rows_def)
  have 2: "sample_pool never_asked three_rows 10 = Inr three_rows"
    using sample_is_bounded_subset_of_pool [of 10 three_rows never_asked, OF v]
    by (auto simp: three_rows_def)
  have 3: "sample_pool never_asked three_rows (- 1) = Inl ValueError"
    using sample_is_bounded_subset_of_pool [of "- 1" three_rows never_asked, OF w]
    by (auto simp: three_rows_def)
  show ?thesis
    using b 1 2 3 by simp
qed

text \<open>
  C5 as stated fails for a negative sample limit: with one row in the pool and the limit
  \<open>-1\<close> the step returns no rows at all, it raises the \<open>ValueError\<close> of \<open>random.sample\<close>.
\<close>

theorem negative_sample_limit_raises:
  "sample_pool never_asked [[(''a'', 10::int)]] (- 1) = Inl ValueError"
  by (simp add: sample_pool_def random_sample_def)

lemma passing_the_gates:
  assumes "is_single_statement sql" and "is_readonly_select sql"
    and "connect_error d = None" and "cursor_error d = None"
    and "preview_rows d rnd sql preview_pool sample_limit = Inr samples"
  shows "fst (dynamic_check_sql d rnd sql sample_limit preview_pool) =
           (case count_rows d sql of
              Inl count_err \<Rightarrow>
                if samples = [] then success 0 [] EmptyResultHint
                else success (int (length samples)) samples (CountFailedNote count_err)
            | Inr total_rows \<Rightarrow>
                if total_rows = 0 then success 0 [] EmptyResultHint
                else success total_rows samples ExecSucceeded)"
  using assms by (simp add: dynamic_check_sql_def Let_def split: sum.splits)

text \<open>
  C6, as the code has it: when the count probe fails and the preview fetch succeeds, for a
  sample limit \<open>N\<close> that is not negative (and a random source that keeps its promise
  wherever it is asked, that is when the pool has more than \<open>N\<close> rows), the outcome is a
  success, its \<open>row_count\<close> is the number of sample rows returned, that is
  \<open>min (pool size) N\<close>, and when this number is not zero the sample rows are returned with
  the note that the count failed.
\<close>

theorem count_failure_falls_back_to_sample_size:
  assumes "is_single_statement sql" and "is_readonly_select sql"
    and "connect_error d = None" and "cursor_error d = None"
    and "count_rows d sql = Inl count_err"
    and "run d (preview_sql sql preview_pool) = Inr pool"
    and "0 \<le> sample_limit"
    and "sample_limit < int (length pool) \<Longrightarrow> sample_ok rnd (length pool) (nat sample_limit)"
  shows "\<exists>samples. preview_rows d rnd sql preview_pool sample_limit = Inr samples \<and>
           ok (fst (dynamic_check_sql d rnd sql sample_limit preview_pool)) \<and>
           status (fst (dynamic_check_sql d rnd sql sample_limit preview_pool)) = ''success'' \<and>
           row_count (fst (dynamic_check_sql d rnd sql sample_limit preview_pool)) =
             Some (int (length samples)) \<and>
           length samples = min (length pool) (nat sample_limit) \<and>
           (samples \<noteq> [] \<longrightarrow>
              sample_rows (fst (dynamic_check_sql d rnd sql sample_limit preview_pool)) =
                Some samples \<and>
              message (fst (dynamic_check_sql d rnd sql sample_limit preview_pool)) =
                CountFailedNote count_err)"
proof -
  obtain samples where s: "sample_pool rnd pool sample_limit = Inr samples"
    using sample_pool_result [OF assms(7,8)] by blast
  have p: "preview_rows d rnd sql preview_pool sample_limit = Inr samples"
    using s assms(6) by (simp add: preview_rows_def)
  have l: "length samples = min (length pool) (nat sample_limit)"
    by (rule sample_pool_length [OF assms(7,8) s])
  have o: "fst (dynamic_check_sql d rnd sql sample_limit preview_pool) =
             (if samples = [] then success 0 [] EmptyResultHint
              else success (int (length samples)) samples (CountFailedNote count_err))"
    using passing_the_gates [OF assms(1-4) p] assms(5) by simp
  show ?thesis
    using p l by (auto simp: o success_def)
qed

text \<open>
  The count probe fails and the preview pool has three rows: with a limit of 2 the outcome
  reports two rows, with the default limit of 10 it reports three; both carry the note.
\<close>

theorem count_failure_falls_back_to_sample_size_witness:
  "is_single_statement ''SELECT a FROM t'' \<and> is_readonly_select ''SELECT a FROM t'' \<and>
   connect_error count_failing_db = None \<and> cursor_error count_failing_db = None \<and>
   count_rows count_failing_db ''SELECT a FROM t'' = Inl count_error \<and>
   run count_failing_db (preview_sql ''SELECT a FROM t'' 200) = Inr three_rows \<and>
   sample_ok picked_2_0 (length three_rows) (nat 2) \<and>
   row_count (fst (dynamic_check_sql count_failing_db picked_2_0 ''SELECT a FROM t'' 2 200)) =
     Some 2 \<and>
   message (fst (dynamic_check_sql count_failing_db picked_2_0 ''SELECT a FROM t'' 2 200)) =
     CountFailedNote count_error \<and>
   row_count (fst (dynamic_check_sql count_failing_db never_asked ''SELECT a FROM t'' 10 200)) =
     Some 3 \<and>
   message (fst (dynamic_check_sql count_failing_db never_asked ''SELECT a FROM t'' 10 200)) =
     CountFailedNote count_error"
proof -
  have g1: "is_single_statement ''SELECT a FROM t''"
    by code_simp
  have g2: "is_readonly_select ''SELECT a FROM t''"
    by code_simp
  have c1: "connect_error count_failing_db = None"
    and c2: "cursor_error count_failing_db = None"
    by (simp_all add: count_failing_db_def)
  have cnt: "count_rows count_failing_db ''SELECT a FROM t'' = Inl count_error"
    by (simp add: count_rows_def count_failing_db_def)
  have pre: "run count_failing_db (preview_sql ''SELECT a FROM t'' 200) = Inr three_rows"
    by (simp add: count_failing_db_def preview_sql_def count_sql_def)
  have n2: "(0::int) \<le> 2" and n10: "(0::int) \<le> 10"
    by simp_all
  have ok: "sample_ok picked_2_0 (length three_rows) (nat 2)"
    by (simp add: sample_ok_def picked_2_0_def three_rows_def)
  have v: "(10::int) < int (length three_rows) \<Longrightarrow>
           sample_ok never_asked (length three_rows) (nat 10)"
    by (simp add: three_rows_def)
  have l: "length three_rows = 3"
    by (simp add: three_rows_def)
  have 1: "row_count (fst (dynamic_check_sql count_failing_db picked_2_0
                             ''SELECT a FROM t'' 2 200)) = Some 2 \<and>
           message (fst (dynamic_check_sql count_failing_db picked_2_0
                           ''SELECT a FROM t'' 2 200)) = CountFailedNote count_error"
    using count_failure_falls_back_to_sample_size [OF g1 g2 c1 c2 cnt pre n2 ok] l
    by auto
  have 2: "row_count (fst (dynamic_check_sql count_failing_db never_asked
                             ''SELECT a FROM t'' 10 200)) = Some 3 \<and>
           message (fst (dynamic_check_sql count_failing_db never_asked
                           ''SELECT a FROM t'' 10 200)) = CountFailedNote count_error"
    using count_failure_falls_back_to_sample_size [OF g1 g2 c1 c2 cnt pre n10 v] l
    by auto
  show ?thesis
    using g1 g2 c1 c2 cnt pre ok 1 2 by simp
qed

text \<open>
  C6 as stated fails: the count probe fails, the preview pool has three rows, the sample
  limit is two; the reported \<open>row_count\<close> is 2, the size of the sample, not 3, the size of
  the pool.
\<close>

theorem row_count_is_not_the_pool_size:
  "count_rows count_failing_db ''SELECT a FROM t'' = Inl count_error \<and>
   run count_failing_db (preview_sql ''SELECT a FROM t'' 200) = Inr three_rows \<and>
   length three_rows = 3 \<and>
   row_count (fst (dynamic_check_sql count_failing_db picked_2_0 ''SELECT a FROM t'' 2 200)) =
     Some 2"
proof -
  have g1: "is_single_statement ''SELECT a FROM t''"
    by code_simp
  have g2: "is_readonly_select ''SELECT a FROM t''"
    by code_simp
  have cnt: "count_rows count_failing_db ''SELECT a FROM t'' = Inl count_error"
    by (simp add: count_rows_def count_failing_db_def)
  have pre: "run count_failing_db (preview_sql ''SELECT a FROM t'' 200) = Inr three_rows"
    by (simp add: count_failing_db_def preview_sql_def count_sql_def)
  have s: "sample_pool picked_2_0 three_rows 2 = Inr [[(''a'', 30)], [(''a'', 10)]]"
    by (simp add: sample_pool_def random_sample_def picked_2_0_def three_rows_def)
  have "dynamic_check_sql count_failing_db picked_2_0 ''SELECT a FROM t'' 2 200 =
          (success 2 [[(''a'', 30)], [(''a'', 10)]] (CountFailedNote count_error),
           [Connect, Execute (count_sql ''SELECT a FROM t''),
            Execute (preview_sql ''SELECT a FROM t'' 200), Close])"
    using g1 g2 cnt pre s
    by (simp add: dynamic_check_sql_def preview_rows_def Let_def count_failing_db_def)
  then show ?thesis
    using cnt pre by (simp add: success_def three_rows_def)
qed

text \<open>
  C7: a statement that passes the two gates and is executed on a store that can be
  reached, whose preview fetch succeeds with no rows and whose count probe either fails or
  counts zero rows, has the outcome \<open>ok = true\<close>, \<open>status = success\<close>, \<open>row_count = 0\<close>, no
  sample rows, no error, and the hint to re-examine the filter conditions.
\<close>

theorem zero_rows_is_a_success:
  assumes "is_single_statement sql" and "is_readonly_select sql"
    and "connect_error d = None" and "cursor_error d = None"
    and "run d (preview_sql sql preview_pool) = Inr []"
    and "isl (count_rows d sql) \<or> count_rows d sql = Inr 0"
  shows "fst (dynamic_check_sql d rnd sql sample_limit preview_pool) =
           \<lparr>ok = True, stage = ''dynamic'', status = ''success'', row_count = Some 0,
            sample_rows = Some [], error = None, message = EmptyResultHint\<rparr>"
proof -
  have p: "preview_rows d rnd sql preview_pool sample_limit = Inr []"
    using assms(5) by (simp add: preview_rows_def sample_pool_def)
  show ?thesis
    using passing_the_gates [OF assms(1-4) p] assms(6)
    by (auto simp: success_def isl_def)
qed

theorem zero_rows_is_a_success_witness:
  "is_single_statement ''SELECT a FROM t'' \<and> is_readonly_select ''SELECT a FROM t'' \<and>
   connect_error empty_db = None \<and> cursor_error empty_db = None \<and>
   run empty_db (preview_sql ''SELECT a FROM t'' 200) = Inr [] \<and>
   isl (count_rows empty_db ''SELECT a FROM t'') \<and>
   fst (dynamic_check_sql empty_db never_asked ''SELECT a FROM t'' 10 200) =
     \<lparr>ok = True, stage = ''dynamic'', status = ''success'', row_count = Some 0,
      sample_rows = Some [], error = None, message = EmptyResultHint\<rparr>"
proof -
  have g1: "is_single_statement ''SELECT a FROM t''"
    by code_simp
  have g2: "is_readonly_select ''SELECT a FROM t''"
    by code_simp
  have c1: "connect_error empty_db = None" and c2: "cursor_error empty_db = None"
    by (simp_all add: empty_db_def)
  have pre: "run empty_db (preview_sql ''SELECT a FROM t'' 200) = Inr []"
    by (simp add: empty_db_def preview_sql_def count_sql_def)
  have cnt: "isl (count_rows empty_db ''SELECT a FROM t'')"
    by (simp add: count_rows_def empty_db_def)
  have cnt': "isl (count_rows empty_db ''SELECT a FROM t'') \<or>
              count_rows empty_db ''SELECT a FROM t'' = Inr 0"
    using cnt by simp
  show ?thesis
    using g1 g2 c1 c2 pre cnt
      zero_rows_is_a_success [OF g1 g2 c1 c2 pre cnt', of never_asked 10]
    by simp
qed

subsection \<open>Streaming result exporter\<close>

lemma cleanup_removes:
  assumes "remove_error env = None"
  shows "cleanup env files file_path file_path = None"
  using assms by (simp add: cleanup_def)

lemma cleanup_keeps:
  assumes "remove_error env \<noteq> None"
  shows "cleanup env files file_path = files"
  using assms by (auto simp: cleanup_def)

lemma cleanup_elsewhere:
  assumes "p \<noteq> file_path"
  shows "cleanup env files file_path p = files p"
  using assms by (simp add: cleanup_def split: option.splits)

text \<open>
  C8, as the code has it: when an export that passed the gates, created its directory and
  reached the store fails in the body of the \<open>try\<close> (while executing, fetching, writing or
  closing), no exception escapes; the outcome is a structured runtime error carrying the
  text of the exception, every other file is left as it was, and the output file is gone
  afterwards provided that its removal does not itself fail; when the removal fails, the
  file system is left as the failure found it, the partial output file included.
\<close>

theorem failed_export_is_cleaned_up:
  assumes "is_single_statement sql" and "is_readonly_select sql"
    and "makedirs_error env = None" and "connect_error env = None"
    and "export_body env files (export_path env) sql fetch_size
           (if excel_friendly then ''utf-8-sig'' else ''utf-8'') = (Some e, files1, n, ops)"
  shows "\<exists>files2 ops2.
           save_to_csv env files sql fetch_size excel_friendly =
             Inr (save_failed (ExnText (exn_str e)), files2, ops2) \<and>
           (remove_error env = None \<longrightarrow> files2 (export_path env) = None) \<and>
           (\<forall>p. p \<noteq> export_path env \<longrightarrow> files2 p = files1 p) \<and>
           (remove_error env \<noteq> None \<longrightarrow> files2 = files1)"
proof -
  have "save_to_csv env files sql fetch_size excel_friendly =
          Inr (save_failed (ExnText (exn_str e)), cleanup env files1 (export_path env),
               Connect # ops @ [Close])"
    using assms by (simp add: save_to_csv_def Let_def)
  then show ?thesis
    using cleanup_removes [of env files1 "export_path env"]
      cleanup_elsewhere [of _ "export_path env" env files1]
      cleanup_keeps [of env files1 "export_path env"]
    by auto
qed

lemma breaking_body:
  "export_body breaking_export Map.empty (export_path breaking_export) ''SELECT a FROM t'' 1
     (if True then ''utf-8-sig'' else ''utf-8'') =
   (Some lost_connection,
    [export_path breaking_export \<mapsto>
       \<lparr>encoding = ''utf-8-sig'', content = [Header [''a''], Data [Some 10]]\<rparr>],
    1, [Execute ''SELECT a FROM t''])"
  by (simp add: export_body_def breaking_export_def writerow_def Let_def)

lemma stuck_body:
  "export_body stuck_export Map.empty (export_path stuck_export) ''SELECT a FROM t'' 1
     (if True then ''utf-8-sig'' else ''utf-8'') =
   (Some lost_connection,
    [export_path stuck_export \<mapsto>
       \<lparr>encoding = ''utf-8-sig'', content = [Header [''a''], Data [Some 10]]\<rparr>],
    1, [Execute ''SELECT a FROM t''])"
  by (simp add: export_body_def stuck_export_def breaking_export_def writerow_def Let_def)

theorem failed_export_is_cleaned_up_witness:
  "is_single_statement ''SELECT a FROM t'' \<and> is_readonly_select ''SELECT a FROM t'' \<and>
   makedirs_error breaking_export = None \<and> connect_error breaking_export = None \<and>
   remove_error breaking_export = None \<and>
   fst (export_body breaking_export Map.empty (export_path breaking_export)
          ''SELECT a FROM t'' 1 (if True then ''utf-8-sig'' else ''utf-8'')) =
     Some lost_connection \<and>
   (\<exists>files2 ops2.
      save_to_csv breaking_export Map.empty ''SELECT a FROM t'' 1 True =
        Inr (save_failed (ExnText (exn_str lost_connection)), files2, ops2) \<and>
      files2 (export_path breaking_export) = None)"
proof -
  have g1: "is_single_statement ''SELECT a FROM t''"
    by code_simp
  have g2: "is_readonly_select ''SELECT a FROM t''"
    by code_simp
  have m: "makedirs_error breaking_export = None"
    and c: "connect_error breaking_export = None"
    and r: "remove_error breaking_export = None"
    by (simp_all add: breaking_export_def)
  show ?thesis
    using g1 g2 m c r breaking_body
      failed_export_is_cleaned_up [OF g1 g2 m c breaking_body]
    by auto
qed

text \<open>
  C8 as stated fails when the removal of the file fails too: the second \<open>fetchmany\<close>
  raises after the header and one row were written, \<open>os.remove\<close> raises, the source
  swallows that, and the partial file is still there when the runtime error is returned.
\<close>

theorem partial_file_survives_failed_removal:
  "save_to_csv stuck_export Map.empty ''SELECT a FROM t'' 1 True =
     Inr (save_failed (ExnText (exn_str lost_connection)),
          [export_path stuck_export \<mapsto>
             \<lparr>encoding = ''utf-8-sig'', content = [Header [''a''], Data [Some 10]]\<rparr>],
          [Connect, Execute ''SELECT a FROM t'', Close])"
proof -
  have g1: "is_single_statement ''SELECT a FROM t''"
    by code_simp
  have g2: "is_readonly_select ''SELECT a FROM t''"
    by code_simp
  have m: "makedirs_error stuck_export = None"
    and c: "connect_error stuck_export = None"
    and r: "remove_error stuck_export = Some permission_denied"
    by (simp_all add: stuck_export_def breaking_export_def)
  show ?thesis
    using g1 g2 m c r stuck_body
    by (simp add: save_to_csv_def cleanup_def Let_def)
qed

subsection \<open>The read-only gate\<close>

lemma lower_char_cases:
  "lower_char c = Char a0 a1 a2 a3 a4 a5 a6 a7 \<Longrightarrow>
     c = Char a0 a1 a2 a3 a4 a5 a6 a7 \<or> c = Char a0 a1 a2 a3 a4 False a6 a7"
  by (cases c) (auto split: if_splits)

lemma match_lit:
  "match_here (Lit l # p) prev s \<longleftrightarrow>
     length l \<le> length s \<and> map lower_char (take (length l) s) = map lower_char l \<and>
     match_here p (if l = [] then prev else Some (s ! (length l - 1))) (drop (length l) s)"
proof (induction l arbitrary: prev s)
  case Nil
  then show ?case by simp
next
  case (Cons a l)
  show ?case
  proof (cases s)
    case Nil
    then show ?thesis by simp
  next
    case (Cons c cs)
    show ?thesis
      using Cons.IH [of "Some c" cs] Cons
      by (cases l) (auto simp: nth_Cons')
  qed
qed

lemma match_star:
  "match_here (Star k # p) prev s \<Longrightarrow>
     \<exists>pre rest prev'. s = pre @ rest \<and> (\<forall>c\<in>set pre. in_cls k c) \<and> match_here p prev' rest"
proof (induction s arbitrary: prev)
  case Nil
  then show ?case by auto
next
  case (Cons c cs)
  from Cons.prems
  have "(in_cls k c \<and> match_here (Star k # p) (Some c) cs) \<or> match_here p prev (c # cs)"
    by simp
  then show ?case
  proof
    assume a: "in_cls k c \<and> match_here (Star k # p) (Some c) cs"
    then obtain pre rest prev'
      where "cs = pre @ rest" "\<forall>x\<in>set pre. in_cls k x" "match_here p prev' rest"
      using Cons.IH by blast
    then have "c # cs = (c # pre) @ rest \<and> (\<forall>x\<in>set (c # pre). in_cls k x) \<and>
               match_here p prev' rest"
      using a by simp
    then show ?thesis by blast
  next
    assume "match_here p prev (c # cs)"
    then have "c # cs = [] @ (c # cs) \<and> (\<forall>x\<in>set []. in_cls k x) \<and>
               match_here p prev (c # cs)"
      by simp
    then show ?thesis by blast
  qed
qed

text \<open>
  What a match of the head pattern for one keyword means: behind a run of whitespace and
  opening parentheses the keyword stands, and no word character follows it.
\<close>

lemma head_pattern_keyword:
  assumes m: "match_here [Star Space, Star LParen, Star Space, Lit kw, WordBoundary] None sql"
    and ne: "kw \<noteq> []"
    and low: "map lower_char kw = kw"
    and first: "\<And>c. lower_char c = kw ! 0 \<Longrightarrow> \<not> skippable c"
    and final: "\<And>c. lower_char c = kw ! (length kw - 1) \<Longrightarrow> is_word c"
  shows "keyword_at kw (dropWhile skippable sql)"
proof -
  obtain p1 r1 v1 where 1: "sql = p1 @ r1" "\<forall>c\<in>set p1. in_cls Space c"
    "match_here [Star LParen, Star Space, Lit kw, WordBoundary] v1 r1"
    using match_star [OF m] by blast
  obtain p2 r2 v2 where 2: "r1 = p2 @ r2" "\<forall>c\<in>set p2. in_cls LParen c"
    "match_here [Star Space, Lit kw, WordBoundary] v2 r2"
    using match_star [OF 1(3)] by blast
  obtain p3 rest v3 where 3: "r2 = p3 @ rest" "\<forall>c\<in>set p3. in_cls Space c"
    "match_here [Lit kw, WordBoundary] v3 rest"
    using match_star [OF 2(3)] by blast
  let ?n = "length kw"
  have len: "?n \<le> length rest"
    and eq: "map lower_char (take ?n rest) = map lower_char kw"
    and wb: "at_boundary (Some (rest ! (?n - 1))) (drop ?n rest)"
    using 3(3) ne by (simp_all add: match_lit)
  have pos: "0 < ?n"
    using ne by simp
  have nth: "lower_char (rest ! i) = kw ! i" if "i < ?n" for i
  proof -
    have "map lower_char (take ?n rest) ! i = map lower_char kw ! i"
      using eq by simp
    then have "lower_char (rest ! i) = lower_char (kw ! i)"
      using that len by simp
    moreover have "lower_char (kw ! i) = kw ! i"
      using low that by (metis nth_map)
    ultimately show ?thesis by simp
  qed
  have rest_ne: "rest \<noteq> []"
    using len pos by auto
  have "\<not> skippable (rest ! 0)"
    using first nth [OF pos] by blast
  then have "\<not> skippable (hd rest)"
    using rest_ne by (simp add: hd_conv_nth)
  then have keep: "dropWhile skippable rest = rest"
    using rest_ne by (cases rest) simp_all
  have skip: "skippable c" if "c \<in> set (p1 @ p2 @ p3)" for c
    using that 1(2) 2(2) 3(2) by (auto simp: skippable_def)
  have "dropWhile skippable ((p1 @ p2 @ p3) @ rest) = dropWhile skippable rest"
    by (rule dropWhile_append2) (rule skip)
  moreover have "sql = (p1 @ p2 @ p3) @ rest"
    using 1(1) 2(1) 3(1) by simp
  ultimately have drop_eq: "dropWhile skippable sql = rest"
    using keep by simp
  have "?n - 1 < ?n"
    using pos by simp
  then have "lower_char (rest ! (?n - 1)) = kw ! (?n - 1)"
    by (rule nth)
  then have "is_word (rest ! (?n - 1))"
    by (rule final)
  then have after: "case drop ?n rest of [] \<Rightarrow> True | c # cs \<Rightarrow> \<not> is_word c"
    using wb by (cases "drop ?n rest") (simp_all add: at_boundary_def)
  have "lower (take ?n rest) = kw"
    using eq low by (simp add: lower_def)
  then show ?thesis
    using after drop_eq by (simp add: keyword_at_def)
qed

lemma head_match_begins:
  assumes "head_match sql"
  shows "begins_select_or_with sql"
proof -
  have s1: "\<not> skippable c" if "lower_char c = ''select'' ! 0" for c
  proof -
    have "c = CHR ''s'' \<or> c = CHR ''S''"
      using that lower_char_cases [of c True True False False True True True False] by simp
    then show ?thesis
      by (auto simp: skippable_def is_space_def Let_def)
  qed
  have s2: "is_word c" if "lower_char c = ''select'' ! (length ''select'' - 1)" for c
  proof -
    have "c = CHR ''t'' \<or> c = CHR ''T''"
      using that lower_char_cases [of c False False True False True True True False] by simp
    then show ?thesis
      by (auto simp: is_word_def)
  qed
  have w1: "\<not> skippable c" if "lower_char c = ''with'' ! 0" for c
  proof -
    have "c = CHR ''w'' \<or> c = CHR ''W''"
      using that lower_char_cases [of c True True True False True True True False] by simp
    then show ?thesis
      by (auto simp: skippable_def is_space_def Let_def)
  qed
  have w2: "is_word c" if "lower_char c = ''with'' ! (length ''with'' - 1)" for c
  proof -
    have "c = CHR ''h'' \<or> c = CHR ''H''"
      using that lower_char_cases [of c False False False True False True True False] by simp
    then show ?thesis
      by (auto simp: is_word_def)
  qed
  have l1: "map lower_char ''select'' = ''select''" and l2: "map lower_char ''with'' = ''with''"
    by (simp_all add: is_upper_def)
  from assms consider
    "match_here [Star Space, Star LParen, Star Space, Lit ''select'', WordBoundary] None sql"
    | "match_here [Star Space, Star LParen, Star Space, Lit ''with'', WordBoundary] None sql"
    by (auto simp: head_match_def)
  then show ?thesis
  proof cases
    case 1
    have "keyword_at ''select'' (dropWhile skippable sql)"
      by (rule head_pattern_keyword [OF 1 _ l1 s1 s2]) simp_all
    then show ?thesis by (simp add: begins_select_or_with_def)
  next
    case 2
    have "keyword_at ''with'' (dropWhile skippable sql)"
      by (rule head_pattern_keyword [OF 2 _ l2 w1 w2]) simp_all
    then show ?thesis by (simp add: begins_select_or_with_def)
  qed
qed

text \<open>
  C10: a text that does not begin, after optional whitespace and opening parentheses,
  with the keyword \<open>SELECT\<close> or \<open>WITH\<close> in any casing fails the read-only gate; dynamic
  execution and export both answer a runtime error, the store is not touched (no
  operation on it is made) and the export leaves the file system as it was.
\<close>

theorem not_select_or_with_is_rejected:
  assumes "\<not> begins_select_or_with sql"
  shows "\<not> is_readonly_select sql \<and>
         \<not> ok (fst (dynamic_check_sql d rnd sql sample_limit preview_pool)) \<and>
         status (fst (dynamic_check_sql d rnd sql sample_limit preview_pool)) =
           ''runtime_error'' \<and>
         snd (dynamic_check_sql d rnd sql sample_limit preview_pool) = [] \<and>
         (\<exists>out. save_to_csv env files sql fetch_size excel_friendly = Inr (out, files, []) \<and>
                \<not> s_ok out \<and> s_status out = ''runtime_error'')"
proof -
  have "\<not> head_match sql"
    using assms head_match_begins by blast
  then have r: "\<not> is_readonly_select sql"
    by (simp add: is_readonly_select_def)
  have d1: "\<not> ok (fst (dynamic_check_sql d rnd sql sample_limit preview_pool))"
    using r by (simp add: dynamic_check_sql_def runtime_error_def)
  have d2: "status (fst (dynamic_check_sql d rnd sql sample_limit preview_pool)) =
              ''runtime_error''"
    using r by (simp add: dynamic_check_sql_def runtime_error_def)
  have d3: "snd (dynamic_check_sql d rnd sql sample_limit preview_pool) = []"
    using r by (simp add: dynamic_check_sql_def)
  have e: "\<exists>out. save_to_csv env files sql fetch_size excel_friendly = Inr (out, files, []) \<and>
                 \<not> s_ok out \<and> s_status out = ''runtime_error''"
    using r by (simp add: save_to_csv_def save_failed_def)
  show ?thesis
    using r d1 d2 d3 e by blast
qed

theorem not_select_or_with_is_rejected_witness:
  "\<not> begins_select_or_with commented_select \<and>
   \<not> is_readonly_select commented_select \<and>
   status (fst (dynamic_check_sql empty_db never_asked commented_select 10 200)) =
     ''runtime_error'' \<and>
   snd (dynamic_check_sql empty_db never_asked commented_select 10 200) = [] \<and>
   (\<exists>out. save_to_csv breaking_export Map.empty commented_select 1000 True =
            Inr (out, Map.empty, []) \<and> s_status out = ''runtime_error'')"
proof -
  have b: "\<not> begins_select_or_with commented_select"
    by (simp add: begins_select_or_with_def commented_select_def skippable_def is_space_def
        keyword_at_def lower_def is_upper_def newline_def)
  show ?thesis
    using b
      not_select_or_with_is_rejected [OF b, of empty_db never_asked 10 200 breaking_export
        Map.empty 1000 True]
    by blast
qed

subsection \<open>Lexical safety scanner\<close>









lemma adjacent_set: "adjacent a b s \<Longrightarrow> a \<in> set s \<and> b \<in> set s"
  by (induction a b s rule: adjacent.induct) auto





text \<open>Facts about the five stages of a statement.\<close>

lemma after_passes_Cons [simp]: "after_passes n (p # ps) = shown n p @ after_passes n ps"
  by (simp add: after_passes_def)

lemma after_passes_Nil [simp]: "after_passes n [] = []"
  by (simp add: after_passes_def)

lemma statement_text_Cons [simp]: "statement_text (p # ps) = piece_text p @ statement_text ps"
  by (simp add: statement_text_def)

lemma statement_text_Nil [simp]: "statement_text [] = []"
  by (simp add: statement_text_def)




















end
